theory Spec2Isabelle
  imports Complex_Main
begin

section \<open>The boot-up time audit of Lighthouse (audits/bootup-time.js)\<close>

text \<open>
  The audit reads a tree of execution timings grouped by URL and then by task, sums the
  self-times of the tasks per URL and task title (\<open>getExecutionTimingsByURL\<close>), regroups
  them by category, and builds a table and a pass/fail score (\<open>audit\<close>).

  Conventions of the embedding.
  \<^item> A JavaScript number is an exact rational. \<open>NaN\<close> is a value of its own, and it occurs
    only where the source can read one (a node's \<open>selfTime\<close>); infinities are not modelled.
  \<^item> A plain object (\<open>tasks\<close>, \<open>groups\<close>, a row \<open>res\<close>, \<open>extendedInfo\<close>) and a \<open>Map\<close> are
    association lists in insertion order; \<open>put\<close> is the assignment \<open>o[k] = v\<close> and
    \<open>Map.set\<close>, \<open>map_of\<close> is the read of an own property. A read that would reach
    \<open>Object.prototype\<close> (a task title such as \<open>constructor\<close>, see \<open>inheritedKey\<close>) is outside
    the embedding, and so is the numeric reordering of index-like keys by \<open>Object.keys\<close>:
    the durations of a URL are listed in the order in which \<open>Object.keys\<close> gives them.
  \<^item> What the file requires but does not define is a parameter: the grouping engine
    \<open>bottomUpGroupBy\<close>, the classifier \<open>eventStyle\<close> (its result's \<open>title\<close>), and the formatter
    \<open>formatMilliseconds\<close> with its optional granularity.
  \<^item> An exception is the value \<open>Inl TypeError\<close>.
\<close>

subsection \<open>Values\<close>

text \<open>The primitive values that a node's \<open>selfTime\<close> can be; a missing field reads \<open>undefined\<close>.\<close>

datatype jsval = JSUndefined | JSNull | JSBoolean bool | JSNaN | JSNumber rat | JSString string

datatype error = TypeError

text \<open>ToBoolean, as \<open>||\<close> applies it.\<close>

fun truthy :: "jsval \<Rightarrow> bool" where
  "truthy JSUndefined = False"
| "truthy JSNull = False"
| "truthy (JSBoolean b) = b"
| "truthy JSNaN = False"
| "truthy (JSNumber x) = (x \<noteq> 0)"
| "truthy (JSString s) = (s \<noteq> [])"

text \<open>
  \<open>Number(x.toFixed(1))\<close> on a number: below \<open>10^21\<close> in magnitude the nearest multiple of
  one tenth, a tie going to the larger magnitude; from \<open>10^21\<close> on, \<open>toFixed\<close> prints the
  number itself.
\<close>

definition toFixed1 :: "rat \<Rightarrow> rat" where
  "toFixed1 x =
     (if 10 ^ 21 \<le> \<bar>x\<bar> then x
      else if x < 0 then - (of_int \<lfloor>(- x) * 10 + 1 / 2\<rfloor> / 10)
      else of_int \<lfloor>x * 10 + 1 / 2\<rfloor> / 10)"

text \<open>
  \<open>Number((selfTime || 0).toFixed(1))\<close>. A truthy value that is not a number (\<open>true\<close>, a
  non-empty string) has no \<open>toFixed\<close>, and the call raises.
\<close>

definition orZero :: "jsval \<Rightarrow> jsval" where
  "orZero v = (if truthy v then v else JSNumber 0)"

definition selfTimeMs :: "jsval \<Rightarrow> error + rat" where
  "selfTimeMs v =
     (case orZero v of
        JSNumber x \<Rightarrow> Inr (toFixed1 x)
      | _ \<Rightarrow> Inl TypeError)"

subsection \<open>Objects and maps\<close>

fun put :: "('k \<times> 'v) list \<Rightarrow> 'k \<Rightarrow> 'v \<Rightarrow> ('k \<times> 'v) list" where
  "put [] k v = [(k, v)]"
| "put (p # ps) k v = (if fst p = k then (k, v) # ps else p # put ps k v)"

text \<open>\<open>o[k] || 0\<close> on an object whose values are numbers.\<close>

definition getOrZero :: "('k \<times> rat) list \<Rightarrow> 'k \<Rightarrow> rat" where
  "getOrZero obj k = (case map_of obj k of Some x \<Rightarrow> (if x \<noteq> 0 then x else 0) | None \<Rightarrow> 0)"

text \<open>
  The names that every plain object inherits from \<open>Object.prototype\<close>. Reading one of
  them from an object that has no own property of that name gives a function, not
  \<open>undefined\<close>.
\<close>

definition objectPrototypeKeys :: "string list" where
  "objectPrototypeKeys =
     [''constructor'', ''__defineGetter__'', ''__defineSetter__'', ''hasOwnProperty'',
      ''__lookupGetter__'', ''__lookupSetter__'', ''isPrototypeOf'', ''propertyIsEnumerable'',
      ''toString'', ''valueOf'', ''__proto__'', ''toLocaleString'']"

definition inheritedKey :: "string \<Rightarrow> bool" where
  "inheritedKey k = (k \<in> set objectPrototypeKeys)"

subsection \<open>The taxonomy\<close>

datatype group_key =
  loading | parseHTML | styleLayout | compositing | painting | gpu | scripting
  | scriptParseCompile | scriptGC | other | images

fun group :: "group_key \<Rightarrow> string" where
  "group loading = ''Network request loading''"
| "group parseHTML = ''Parsing DOM''"
| "group styleLayout = ''Style & Layout''"
| "group compositing = ''Compositing''"
| "group painting = ''Paint''"
| "group gpu = ''GPU''"
| "group scripting = ''Script Evaluation''"
| "group scriptParseCompile = ''Script Parsing & Compile''"
| "group scriptGC = ''Garbage collection''"
| "group other = ''Other''"
| "group images = ''Images''"

definition taskToGroupTable :: "(string \<times> group_key) list" where
  "taskToGroupTable =
     [(''Animation'', painting),
      (''Async Task'', other),
      (''Frame Start'', painting),
      (''Frame Start (main thread)'', painting),
      (''Cancel Animation Frame'', scripting),
      (''Cancel Idle Callback'', scripting),
      (''Compile Script'', scriptParseCompile),
      (''Composite Layers'', compositing),
      (''Console Time'', scripting),
      (''Image Decode'', images),
      (''Draw Frame'', painting),
      (''Embedder Callback'', scripting),
      (''Evaluate Script'', scripting),
      (''Event'', scripting),
      (''Animation Frame Fired'', scripting),
      (''Fire Idle Callback'', scripting),
      (''Function Call'', scripting),
      (''DOM GC'', scriptGC),
      (''GC Event'', scriptGC),
      (''GPU'', gpu),
      (''Hit Test'', compositing),
      (''Invalidate Layout'', styleLayout),
      (''JS Frame'', scripting),
      (''Input Latency'', scripting),
      (''Layout'', styleLayout),
      (''Major GC'', scriptGC),
      (''DOMContentLoaded event'', scripting),
      (''First paint'', painting),
      (''FMP'', painting),
      (''FMP candidate'', painting),
      (''Load event'', scripting),
      (''Minor GC'', scriptGC),
      (''Paint'', painting),
      (''Paint Image'', images),
      (''Paint Setup'', painting),
      (''Parse Stylesheet'', parseHTML),
      (''Parse HTML'', parseHTML),
      (''Parse Script'', scriptParseCompile),
      (''Other'', other),
      (''Rasterize Paint'', painting),
      (''Recalculate Style'', styleLayout),
      (''Request Animation Frame'', scripting),
      (''Request Idle Callback'', scripting),
      (''Request Main Thread Frame'', painting),
      (''Image Resize'', images),
      (''Finish Loading'', loading),
      (''Receive Data'', loading),
      (''Receive Response'', loading),
      (''Send Request'', loading),
      (''Run Microtasks'', scripting),
      (''Schedule Style Recalculation'', styleLayout),
      (''Scroll'', compositing),
      (''Task'', other),
      (''Timer Fired'', scripting),
      (''Install Timer'', scripting),
      (''Remove Timer'', scripting),
      (''Timestamp'', scripting),
      (''Update Layer'', compositing),
      (''Update Layer Tree'', compositing),
      (''User Timing'', scripting),
      (''Create WebSocket'', scripting),
      (''Destroy WebSocket'', scripting),
      (''Receive WebSocket Handshake'', scripting),
      (''Send WebSocket Handshake'', scripting),
      (''XHR Load'', scripting),
      (''XHR Ready State Change'', scripting)]"

text \<open>\<open>taskToGroup[task]\<close>: the category's label, or \<open>None\<close> for \<open>undefined\<close>.\<close>

definition taskToGroup :: "string \<Rightarrow> string option" where
  "taskToGroup task = map_option group (map_of taskToGroupTable task)"

subsection \<open>getExecutionTimingsByURL\<close>

text \<open>
  The tree that \<open>bottomUpGroupBy('URL')\<close> returns: its \<open>children\<close> map URLs to nodes, whose
  \<open>children\<close> are the task nodes. A \<open>children\<close> that is missing is \<open>None\<close>.
\<close>

datatype 'e task_node = TaskNode (selfTime: jsval) (event: 'e)

datatype 'e url_node = UrlNode (children: "'e task_node list option")

datatype 'e bottom_up = BottomUp (urlChildren: "(string \<times> 'e url_node) list option")

type_synonym durations = "(string \<times> rat) list"

type_synonym timings = "(string \<times> durations) list"

text \<open>The body of the inner \<open>forEach\<close>, for one task node.\<close>

definition addTask ::
  "('e \<Rightarrow> string) \<Rightarrow> durations \<Rightarrow> 'e task_node \<Rightarrow> error + durations" where
  "addTask eventStyle tasks perTaskPerUrlNode =
     (let title = eventStyle (event perTaskPerUrlNode);
          current = getOrZero tasks title
      in case selfTimeMs (selfTime perTaskPerUrlNode) of
           Inl e \<Rightarrow> Inl e
         | Inr ms \<Rightarrow> Inr (put tasks title (current + ms)))"

fun addTasks ::
  "('e \<Rightarrow> string) \<Rightarrow> durations \<Rightarrow> 'e task_node list \<Rightarrow> error + durations" where
  "addTasks eventStyle tasks [] = Inr tasks"
| "addTasks eventStyle tasks (n # ns) =
     (case addTask eventStyle tasks n of
        Inl e \<Rightarrow> Inl e
      | Inr tasks' \<Rightarrow> addTasks eventStyle tasks' ns)"

text \<open>The body of the outer \<open>forEach\<close>, for one URL node.\<close>

definition addUrl ::
  "('e \<Rightarrow> string) \<Rightarrow> timings \<Rightarrow> string \<times> 'e url_node \<Rightarrow> error + timings" where
  "addUrl eventStyle result entry =
     (case entry of (url, perUrlNode) \<Rightarrow>
        if url = [] \<or> url = ''about:blank'' then Inr result
        else (case children perUrlNode of
                None \<Rightarrow> Inl TypeError
              | Some nodes \<Rightarrow>
                  (case addTasks eventStyle [] nodes of
                     Inl e \<Rightarrow> Inl e
                   | Inr tasks \<Rightarrow> Inr (put result url tasks))))"

fun addUrls ::
  "('e \<Rightarrow> string) \<Rightarrow> timings \<Rightarrow> (string \<times> 'e url_node) list \<Rightarrow> error + timings" where
  "addUrls eventStyle result [] = Inr result"
| "addUrls eventStyle result (entry # entries) =
     (case addUrl eventStyle result entry of
        Inl e \<Rightarrow> Inl e
      | Inr result' \<Rightarrow> addUrls eventStyle result' entries)"

definition executionTimings :: "('e \<Rightarrow> string) \<Rightarrow> 'e bottom_up \<Rightarrow> error + timings" where
  "executionTimings eventStyle bottomUpByName =
     (case urlChildren bottomUpByName of
        None \<Rightarrow> Inl TypeError
      | Some entries \<Rightarrow> addUrls eventStyle [] entries)"

definition getExecutionTimingsByURL ::
  "('t \<Rightarrow> 'e bottom_up) \<Rightarrow> ('e \<Rightarrow> string) \<Rightarrow> 't \<Rightarrow> error + timings" where
  "getExecutionTimingsByURL bottomUpGroupBy eventStyle trace =
     executionTimings eventStyle (bottomUpGroupBy trace)"

subsection \<open>audit\<close>

record heading =
  key :: "string option"
  itemType :: string
  text' :: "string option"

datatype 's cell = Formatted 's | Url string

text \<open>The property name a heading key or a category becomes: \<open>undefined\<close> is \<open>"undefined"\<close>.\<close>

definition propertyKey :: "string option \<Rightarrow> string" where
  "propertyKey k = (case k of None \<Rightarrow> ''undefined'' | Some s \<Rightarrow> s)"

definition urlHeading :: heading where
  "urlHeading = \<lparr>key = Some ''url'', itemType = ''url'', text' = Some ''URL''\<rparr>"

text \<open>
  The body of \<open>Object.keys(durations).forEach\<close>, for one task and its duration; the state is
  \<open>totalBootupTime\<close>, \<open>headings\<close> and this URL's \<open>groups\<close>.
\<close>

definition groupTask ::
  "rat \<times> heading list \<times> (string \<times> rat) list \<Rightarrow> string \<times> rat
     \<Rightarrow> rat \<times> heading list \<times> (string \<times> rat) list" where
  "groupTask state entry =
     (case state of (totalBootupTime, headings, groups) \<Rightarrow>
      case entry of (task, duration) \<Rightarrow>
        (let g = taskToGroup task;
             current = getOrZero groups (propertyKey g)
         in (totalBootupTime + duration,
             (if find (\<lambda>heading. key heading = g) headings = None
              then headings @ [\<lparr>key = g, itemType = ''text'', text' = g\<rparr>]
              else headings),
             put groups (propertyKey g) (current + duration))))"

text \<open>The \<open>map\<close> over \<open>Array.from(bootupTimings)\<close>, threading the total and the headings.\<close>

fun groupUrls ::
  "rat \<times> heading list \<Rightarrow> timings
     \<Rightarrow> (rat \<times> heading list) \<times> (string \<times> (string \<times> rat) list) list" where
  "groupUrls state [] = (state, [])"
| "groupUrls state ((url, durations) # rest) =
     (case foldl groupTask (fst state, snd state, []) durations of
        (totalBootupTime, headings, groups) \<Rightarrow>
          (case groupUrls (totalBootupTime, headings) rest of
             (state', groupsPerUrl) \<Rightarrow> (state', (url, groups) # groupsPerUrl)))"

text \<open>One row of the table: a cell per heading, then the URL under \<open>url\<close>.\<close>

definition makeRow ::
  "(rat \<Rightarrow> nat option \<Rightarrow> 's) \<Rightarrow> heading list \<Rightarrow> string \<times> (string \<times> rat) list
     \<Rightarrow> (string \<times> 's cell) list" where
  "makeRow formatMilliseconds headings entry =
     (case entry of (url, groups) \<Rightarrow>
        put (foldl (\<lambda>res heading.
                      put res (propertyKey (key heading))
                        (Formatted (formatMilliseconds
                           (getOrZero groups (propertyKey (key heading))) (Some 1))))
               [] headings)
            ''url'' (Url url))"

text \<open>
  The result. \<open>tableHeadings\<close> and \<open>tableItems\<close> are the two arguments of \<open>makeTableDetails\<close>,
  which the base class \<open>Audit\<close> turns into \<open>details\<close>.
\<close>

record 's audit_result =
  score :: bool
  rawValue :: rat
  displayValue :: 's
  tableHeadings :: "heading list"
  tableItems :: "(string \<times> 's cell) list list"
  extendedInfo :: "(string \<times> durations) list"

text \<open>
  \<open>audit\<close> takes the trace \<open>artifacts.traces[DEFAULT_PASS]\<close>; \<open>auditTimings\<close> is its body from
  the timings map \<open>bootupTimings\<close> on.
\<close>

definition auditTimings ::
  "(rat \<Rightarrow> nat option \<Rightarrow> 's) \<Rightarrow> timings \<Rightarrow> 's audit_result" where
  "auditTimings formatMilliseconds bootupTimings =
     (case groupUrls (0, [urlHeading]) bootupTimings of
        ((totalBootupTime, headings), groupsPerUrl) \<Rightarrow>
          \<lparr>score = totalBootupTime < 4000,
           rawValue = totalBootupTime,
           displayValue = formatMilliseconds totalBootupTime None,
           tableHeadings = headings,
           tableItems = map (makeRow formatMilliseconds headings) groupsPerUrl,
           extendedInfo = foldl (\<lambda>info (url, durations). put info url durations) [] bootupTimings\<rparr>)"

definition audit ::
  "('t \<Rightarrow> 'e bottom_up) \<Rightarrow> ('e \<Rightarrow> string) \<Rightarrow> (rat \<Rightarrow> nat option \<Rightarrow> 's) \<Rightarrow> 't
     \<Rightarrow> error + 's audit_result" where
  "audit bottomUpGroupBy eventStyle formatMilliseconds trace =
     (case getExecutionTimingsByURL bottomUpGroupBy eventStyle trace of
        Inl e \<Rightarrow> Inl e
      | Inr bootupTimings \<Rightarrow> Inr (auditTimings formatMilliseconds bootupTimings))"

subsection \<open>Notions used to state the properties\<close>

text \<open>The elements of a list in the order of their first occurrence.\<close>

primrec firstOccurrences :: "'a list \<Rightarrow> 'a list" where
  "firstOccurrences [] = []"
| "firstOccurrences (x # xs) = x # filter (\<lambda>y. y \<noteq> x) (firstOccurrences xs)"

text \<open>
  The categories in the order in which the audit meets them: URL by URL, and within a URL
  task by task.
\<close>

definition discovered :: "timings \<Rightarrow> string option list" where
  "discovered bootupTimings =
     concat (map (\<lambda>(url, durations). map (\<lambda>(task, d). taskToGroup task) durations)
               bootupTimings)"

definition categoryHeading :: "string option \<Rightarrow> heading" where
  "categoryHeading g = \<lparr>key = g, itemType = ''text'', text' = g\<rparr>"

text \<open>No task title of the timings is a name inherited from \<open>Object.prototype\<close>.\<close>

definition ownTitles :: "timings \<Rightarrow> bool" where
  "ownTitles bootupTimings =
     list_all (\<lambda>(url, durations). list_all (\<lambda>(task, d). \<not> inheritedKey task) durations)
       bootupTimings"



text \<open>
  The time of a URL that goes to the tasks of one category; \<open>None\<close> stands for the tasks
  outside the taxonomy.
\<close>

definition categoryTime :: "string option \<Rightarrow> durations \<Rightarrow> rat" where
  "categoryTime g durations =
     (\<Sum>(task, d)\<leftarrow>durations. if taskToGroup task = g then d else 0)"

text \<open>The \<open>groups\<close> of one URL: its durations summed per category.\<close>

definition groupsOf :: "durations \<Rightarrow> (string \<times> rat) list" where
  "groupsOf durations =
     foldl (\<lambda>groups (task, d).
              put groups (propertyKey (taskToGroup task))
                (getOrZero groups (propertyKey (taskToGroup task)) + d))
       [] durations"



text \<open>Whether \<open>selfTime || 0\<close> is a number, and which.\<close>

definition selfTimeIsNumber :: "jsval \<Rightarrow> bool" where
  "selfTimeIsNumber v = (case orZero v of JSNumber x \<Rightarrow> True | _ \<Rightarrow> False)"

definition selfTimeNumber :: "jsval \<Rightarrow> rat" where
  "selfTimeNumber v = (case orZero v of JSNumber x \<Rightarrow> x | _ \<Rightarrow> 0)"

section \<open>Properties\<close>

subsection \<open>The grand total\<close>

lemma groupTask_total: "fst (foldl groupTask (t, hs, gs) d) = t + sum_list (map snd d)"
  by (induction d arbitrary: t hs gs) (auto simp: groupTask_def Let_def split: prod.splits)

lemma groupUrls_total:
  "fst (fst (groupUrls (t, hs) m)) = t + (\<Sum>(url, durations)\<leftarrow>m. \<Sum>(task, d)\<leftarrow>durations. d)"
proof (induction m arbitrary: t hs)
  case Nil
  show ?case by simp
next
  case (Cons e m)
  obtain url durations where e: "e = (url, durations)" by (cases e)
  obtain t' hs' gs' where f: "foldl groupTask (t, hs, []) durations = (t', hs', gs')"
    by (cases "foldl groupTask (t, hs, []) durations") auto
  have t': "t' = t + sum_list (map snd durations)"
    using groupTask_total [of t hs "[]" durations] f by simp
  have snd_eq: "(\<Sum>(task, d)\<leftarrow>durations. d) = sum_list (map snd durations)"
    by (simp add: case_prod_unfold)
  show ?case
    using Cons.IH [of t' hs'] by (simp add: e f t' snd_eq split_beta add.assoc)
qed

text \<open>
  C1. The grand total that the audit reports as \<open>rawValue\<close> is the sum, over the URLs of
  the timings map (the retained URLs) and over the task titles of each URL's durations, of
  the durations: the grouping by category neither loses nor adds time.
\<close>

theorem rawValue_is_sum:
  "rawValue (auditTimings formatMilliseconds bootupTimings) =
     (\<Sum>(url, durations)\<leftarrow>bootupTimings. \<Sum>(task, d)\<leftarrow>durations. d)"
  using groupUrls_total [of 0 "[urlHeading]" bootupTimings]
  by (simp add: auditTimings_def split_beta)

theorem rawValue_is_sum_witness:
  "rawValue (auditTimings (\<lambda>ms granularity. ms)
     [(''https://a.test/script.js'',
         [(''Evaluate Script'', 15004 / 10), (''Parse Script'', 2001 / 10)]),
      (''https://b.test/lib.js'', [(''Mystery Task'', 1 / 2)])]) = 1701"
  using rawValue_is_sum [of "\<lambda>ms granularity. ms"
     "[(''https://a.test/script.js'',
          [(''Evaluate Script'', 15004 / 10), (''Parse Script'', 2001 / 10)]),
       (''https://b.test/lib.js'', [(''Mystery Task'', 1 / 2)])]"]
  by simp

subsection \<open>The score\<close>

text \<open>
  C2. The score is true exactly when the grand total is strictly below 4000 milliseconds;
  at a total of exactly 4000 the score is false.
\<close>

theorem score_iff_below_threshold:
  "(score (auditTimings formatMilliseconds bootupTimings)
      \<longleftrightarrow> rawValue (auditTimings formatMilliseconds bootupTimings) < 4000)
   \<and> (rawValue (auditTimings formatMilliseconds bootupTimings) = 4000
      \<longrightarrow> \<not> score (auditTimings formatMilliseconds bootupTimings))"
  by (simp add: auditTimings_def split_beta)

theorem score_iff_below_threshold_witness:
  "rawValue (auditTimings (\<lambda>ms granularity. ms)
      [(''https://a.test/a.js'', [(''Evaluate Script'', 2500)]),
       (''https://b.test/b.js'', [(''Evaluate Script'', 1500)])]) = 4000
   \<and> \<not> score (auditTimings (\<lambda>ms granularity. ms)
      [(''https://a.test/a.js'', [(''Evaluate Script'', 2500)]),
       (''https://b.test/b.js'', [(''Evaluate Script'', 1500)])])"
proof -
  let ?m = "[(''https://a.test/a.js'', [(''Evaluate Script'', 2500::rat)]),
             (''https://b.test/b.js'', [(''Evaluate Script'', 1500)])]"
  have raw: "rawValue (auditTimings (\<lambda>ms granularity. ms) ?m) = 4000"
    by code_simp
  show ?thesis
    using score_iff_below_threshold [of "\<lambda>ms granularity. ms" ?m] raw by simp
qed

subsection \<open>An empty timings map\<close>

text \<open>
  C9. When the extractor yields an empty timings map, the audit returns a complete result:
  no rows, a total of 0 and a passing score. The builder \<open>auditTimings\<close> is a total
  function of the timings map, so it has no partial or error result.
\<close>

theorem empty_timings_pass:
  assumes "getExecutionTimingsByURL bottomUpGroupBy eventStyle trace = Inr []"
  shows "audit bottomUpGroupBy eventStyle formatMilliseconds trace =
           Inr \<lparr>score = True, rawValue = 0, displayValue = formatMilliseconds 0 None,
                tableHeadings = [urlHeading], tableItems = [], extendedInfo = []\<rparr>"
  using assms by (simp add: audit_def auditTimings_def)

theorem empty_timings_pass_witness:
  "audit (\<lambda>trace. BottomUp (Some trace)) (\<lambda>event. event) (\<lambda>ms granularity. ms)
     [(''about:blank'', UrlNode (Some [TaskNode (JSNumber 12) ''Paint'']))] =
   Inr \<lparr>score = True, rawValue = 0, displayValue = 0,
        tableHeadings = [urlHeading], tableItems = [], extendedInfo = []\<rparr>"
proof -
  have "getExecutionTimingsByURL (\<lambda>trace. BottomUp (Some trace)) (\<lambda>event. event)
          [(''about:blank'', UrlNode (Some [TaskNode (JSNumber 12) ''Paint'']))] = Inr []"
    by (simp add: getExecutionTimingsByURL_def executionTimings_def addUrl_def)
  from empty_timings_pass [OF this, of "\<lambda>ms granularity. ms"] show ?thesis by simp
qed

subsection \<open>Skipped URLs\<close>

lemma map_of_put: "map_of (put ps k v) = (map_of ps)(k \<mapsto> v)"
  by (induction ps) (auto simp: fun_eq_iff)

lemma keys_put: "fst ` set (put ps k v) = insert k (fst ` set ps)"
  by (induction ps) auto

lemma addUrls_filter:
  "addUrls es result entries =
     addUrls es result (filter (\<lambda>(url, node). url \<noteq> [] \<and> url \<noteq> ''about:blank'') entries)"
proof (induction entries arbitrary: result)
  case Nil
  show ?case by simp
next
  case (Cons e entries)
  obtain url node where e: "e = (url, node)" by (cases e)
  show ?case
  proof (cases "url = [] \<or> url = ''about:blank''")
    case True
    then have "addUrl es result e = Inr result" by (auto simp: addUrl_def e)
    with True show ?thesis using Cons.IH [of result] by (auto simp: e)
  next
    case False
    then show ?thesis using Cons.IH by (auto simp: e split: sum.splits)
  qed
qed

lemma addUrl_keys:
  assumes "addUrl es result e = Inr m"
  shows "fst ` set m \<subseteq> fst ` set result \<union> {url. url \<noteq> [] \<and> url \<noteq> ''about:blank''}"
proof -
  obtain url node where e: "e = (url, node)" by (cases e)
  show ?thesis
  proof (cases "url = [] \<or> url = ''about:blank''")
    case True
    with assms e have "m = result" by (auto simp: addUrl_def)
    then show ?thesis by auto
  next
    case False
    with assms e obtain tasks where "m = put result url tasks"
      by (auto simp: addUrl_def split: option.splits sum.splits)
    with False show ?thesis by (auto simp: keys_put)
  qed
qed

lemma addUrls_keys:
  assumes "addUrls es result entries = Inr m"
  shows "fst ` set m \<subseteq> fst ` set result \<union> {url. url \<noteq> [] \<and> url \<noteq> ''about:blank''}"
  using assms
proof (induction entries arbitrary: result)
  case Nil
  then show ?case by auto
next
  case (Cons e entries)
  then obtain r where r: "addUrl es result e = Inr r" and rest: "addUrls es r entries = Inr m"
    by (auto split: sum.splits)
  from addUrl_keys [OF r] Cons.IH [OF rest] show ?case by blast
qed

lemma groupUrls_urls: "map fst (snd (groupUrls st m)) = map fst m"
  by (induction st m rule: groupUrls.induct) (auto split: prod.splits)

lemma makeRow_url: "map_of (makeRow f hs (url, gs)) ''url'' = Some (Url url)"
  by (simp add: makeRow_def map_of_put)

lemma tableItems_urls:
  assumes "row \<in> set (tableItems (auditTimings f m))"
  shows "\<exists>url \<in> fst ` set m. map_of row ''url'' = Some (Url url)"
proof -
  obtain st gpu where g: "groupUrls (0, [urlHeading]) m = (st, gpu)"
    by (cases "groupUrls (0, [urlHeading]) m")
  from assms g obtain url gs where ug: "(url, gs) \<in> set gpu" and row: "row = makeRow f (snd st) (url, gs)"
    by (auto simp: auditTimings_def split: prod.splits)
  from groupUrls_urls [of "(0, [urlHeading])" m] g have "map fst gpu = map fst m" by simp
  then have "fst ` set gpu = fst ` set m" by (metis set_map)
  with ug have "url \<in> fst ` set m" by force
  with row show ?thesis by (auto simp: makeRow_url)
qed

text \<open>
  C3. A URL node whose key is the empty string or \<open>about:blank\<close> is skipped: the audit of a
  tree is the audit of the tree without those nodes, so their children add nothing to the
  grand total (and a skipped node's children are not even read); no such URL is a key of
  the timings map, and no row of the table has it under \<open>url\<close>.
\<close>

theorem blank_urls_skipped:
  assumes "bottomUpGroupBy trace = BottomUp (Some entries)"
  shows "audit bottomUpGroupBy eventStyle formatMilliseconds trace =
           audit (\<lambda>t. BottomUp (Some (filter (\<lambda>(url, node). url \<noteq> [] \<and> url \<noteq> ''about:blank'')
                                      entries)))
             eventStyle formatMilliseconds trace
         \<and> (\<forall>bootupTimings result.
               getExecutionTimingsByURL bottomUpGroupBy eventStyle trace = Inr bootupTimings
               \<and> audit bottomUpGroupBy eventStyle formatMilliseconds trace = Inr result
               \<longrightarrow> map_of bootupTimings [] = None
                 \<and> map_of bootupTimings ''about:blank'' = None
                 \<and> (\<forall>row \<in> set (tableItems result).
                       map_of row ''url'' \<noteq> Some (Url [])
                       \<and> map_of row ''url'' \<noteq> Some (Url ''about:blank'')))"
proof (intro conjI allI impI)
  show "audit bottomUpGroupBy eventStyle formatMilliseconds trace =
           audit (\<lambda>t. BottomUp (Some (filter (\<lambda>(url, node). url \<noteq> [] \<and> url \<noteq> ''about:blank'')
                                      entries)))
             eventStyle formatMilliseconds trace"
    using addUrls_filter [of eventStyle "[]" entries]
    by (simp add: audit_def getExecutionTimingsByURL_def executionTimings_def assms)
next
  fix bootupTimings result
  assume h: "getExecutionTimingsByURL bottomUpGroupBy eventStyle trace = Inr bootupTimings
             \<and> audit bottomUpGroupBy eventStyle formatMilliseconds trace = Inr result"
  then have "addUrls eventStyle [] entries = Inr bootupTimings"
    by (simp add: getExecutionTimingsByURL_def executionTimings_def assms)
  from addUrls_keys [OF this]
  have keys: "[] \<notin> fst ` set bootupTimings" "''about:blank'' \<notin> fst ` set bootupTimings"
    by auto
  then show "map_of bootupTimings [] = None" "map_of bootupTimings ''about:blank'' = None"
    by (simp_all add: map_of_eq_None_iff)
  from h have r: "result = auditTimings formatMilliseconds bootupTimings"
    by (auto simp: audit_def)
  show "\<forall>row \<in> set (tableItems result).
          map_of row ''url'' \<noteq> Some (Url []) \<and> map_of row ''url'' \<noteq> Some (Url ''about:blank'')"
  proof
    fix row assume "row \<in> set (tableItems result)"
    with r tableItems_urls [of row formatMilliseconds bootupTimings]
    obtain url where "url \<in> fst ` set bootupTimings" "map_of row ''url'' = Some (Url url)"
      by auto
    with keys show "map_of row ''url'' \<noteq> Some (Url []) \<and> map_of row ''url'' \<noteq> Some (Url ''about:blank'')"
      by force
  qed
qed

theorem blank_urls_skipped_witness:
  "audit (\<lambda>t. BottomUp (Some t)) (\<lambda>event. event) (\<lambda>ms granularity. ms)
     [([], UrlNode None),
      (''about:blank'', UrlNode (Some [TaskNode (JSNumber 50) ''Paint''])),
      (''https://a.test/a.js'', UrlNode (Some [TaskNode (JSNumber (3 / 2)) ''Evaluate Script'']))]
   = audit (\<lambda>t. BottomUp (Some
       [(''https://a.test/a.js'', UrlNode (Some [TaskNode (JSNumber (3 / 2)) ''Evaluate Script'']))]))
       (\<lambda>event. event) (\<lambda>ms granularity. ms)
     [([], UrlNode None),
      (''about:blank'', UrlNode (Some [TaskNode (JSNumber 50) ''Paint''])),
      (''https://a.test/a.js'', UrlNode (Some [TaskNode (JSNumber (3 / 2)) ''Evaluate Script'']))]
   \<and> getExecutionTimingsByURL (\<lambda>t. BottomUp (Some t)) (\<lambda>event. event)
     [([], UrlNode None),
      (''about:blank'', UrlNode (Some [TaskNode (JSNumber 50) ''Paint''])),
      (''https://a.test/a.js'', UrlNode (Some [TaskNode (JSNumber (3 / 2)) ''Evaluate Script'']))]
     = Inr [(''https://a.test/a.js'', [(''Evaluate Script'', 3 / 2)])]
   \<and> map_of [(''https://a.test/a.js'', [(''Evaluate Script'', 3 / 2 :: rat)])] ''about:blank'' = None"
proof -
  let ?E = "[([], UrlNode None),
      (''about:blank'', UrlNode (Some [TaskNode (JSNumber 50) ''Paint''])),
      (''https://a.test/a.js'', UrlNode (Some [TaskNode (JSNumber (3 / 2)) ''Evaluate Script'']))]"
  let ?G = "\<lambda>t :: (string \<times> string url_node) list. BottomUp (Some t)"
  have ext: "getExecutionTimingsByURL ?G (\<lambda>event. event) ?E
               = Inr [(''https://a.test/a.js'', [(''Evaluate Script'', 3 / 2)])]"
    by code_simp
  then have aud: "audit ?G (\<lambda>event. event) (\<lambda>ms granularity. ms) ?E =
      Inr (auditTimings (\<lambda>ms granularity. ms) [(''https://a.test/a.js'', [(''Evaluate Script'', 3 / 2)])])"
    by (simp add: audit_def)
  from blank_urls_skipped [where bottomUpGroupBy = ?G and trace = ?E and entries = ?E
      and eventStyle = "\<lambda>event. event" and formatMilliseconds = "\<lambda>ms granularity. ms"] ext aud
  show ?thesis by simp
qed

subsection \<open>Missing children\<close>

lemma addUrls_missing_children:
  assumes "(url, node) \<in> set entries" "url \<noteq> []" "url \<noteq> ''about:blank''" "children node = None"
  shows "addUrls es result entries = Inl TypeError"
  using assms(1)
proof (induction entries arbitrary: result)
  case Nil
  then show ?case by simp
next
  case (Cons e entries)
  show ?case
  proof (cases "addUrl es result e")
    case (Inl err)
    then show ?thesis by (cases err) simp
  next
    case (Inr r)
    with assms(2-4) have "e \<noteq> (url, node)" by (auto simp: addUrl_def)
    with Cons.prems have "(url, node) \<in> set entries" by simp
    from Cons.IH [OF this] Inr show ?thesis by simp
  qed
qed

text \<open>
  C6, as the code has it. The extractor has no fallback for a retained URL node without a
  \<open>children\<close> mapping: \<open>perUrlNode.children.forEach\<close> raises a TypeError, and the whole
  extraction fails. A retained URL node whose \<open>children\<close> is present and empty gives that
  URL the empty duration map.
\<close>

theorem missing_children_raise:
  "((url, node) \<in> set entries \<and> url \<noteq> [] \<and> url \<noteq> ''about:blank'' \<and> children node = None
      \<longrightarrow> executionTimings eventStyle (BottomUp (Some entries)) = Inl TypeError)
   \<and> (url \<noteq> [] \<and> url \<noteq> ''about:blank''
      \<longrightarrow> addUrl eventStyle result (url, UrlNode (Some [])) = Inr (put result url []))"
  using addUrls_missing_children [of url node entries eventStyle "[]"]
  by (auto simp: executionTimings_def addUrl_def)

theorem missing_children_raise_witness:
  "executionTimings (\<lambda>event. event)
     (BottomUp (Some [(''https://a.test/a.js'', UrlNode (Some [TaskNode (JSNumber 2) ''Paint''])),
                      (''https://a.test/app.js'', UrlNode None)])) = Inl TypeError
   \<and> addUrl (\<lambda>event :: string. event) [] (''https://a.test/app.js'', UrlNode (Some []))
       = Inr [(''https://a.test/app.js'', [])]"
  using missing_children_raise [of "''https://a.test/app.js''" "UrlNode None"
      "[(''https://a.test/a.js'', UrlNode (Some [TaskNode (JSNumber 2) ''Paint''])),
        (''https://a.test/app.js'', UrlNode None)]" "\<lambda>event. event" "[]"]
  by simp

text \<open>
  The claim C6 as written (no error and an empty duration map for a retained URL node whose
  \<open>children\<close> is missing) fails on the tree with the single URL node
  \<open>https://a.test/app.js\<close> that has no \<open>children\<close>.
\<close>

theorem missing_children_counterexample:
  "executionTimings (\<lambda>event. event)
     (BottomUp (Some [(''https://a.test/app.js'', UrlNode None :: string url_node)])) = Inl TypeError"
  by (simp add: executionTimings_def addUrl_def)

subsection \<open>The headings\<close>

lemma set_firstOccurrences: "set (firstOccurrences xs) = set xs"
  by (induction xs) auto

lemma distinct_firstOccurrences: "distinct (firstOccurrences xs)"
  by (induction xs) (auto simp: set_firstOccurrences)

lemma firstOccurrences_append:
  "firstOccurrences (xs @ ys) = firstOccurrences xs @ filter (\<lambda>y. y \<notin> set xs) (firstOccurrences ys)"
proof (induction xs)
  case Nil
  show ?case by simp
next
  case (Cons x xs)
  have "filter (\<lambda>y. y \<noteq> x) (filter (\<lambda>y. y \<notin> set xs) (firstOccurrences ys))
          = filter (\<lambda>y. y \<notin> set (x # xs)) (firstOccurrences ys)"
    by (auto intro: filter_cong)
  with Cons show ?case by simp
qed

lemma remdups_snoc: "remdups (ys @ [x]) = filter (\<lambda>y. y \<noteq> x) (remdups ys) @ [x]"
  by (induction ys) auto

lemma firstOccurrences_remdups: "firstOccurrences xs = rev (remdups (rev xs))"
  by (induction xs) (simp_all add: remdups_snoc rev_filter)

lemma key_categoryHeading: "key (categoryHeading g) = g"
  by (simp add: categoryHeading_def)

lemma groupTask_step:
  "groupTask (t, hs, gs) (task, x) =
     (t + x,
      (if taskToGroup task \<in> key ` set hs then hs else hs @ [categoryHeading (taskToGroup task)]),
      put gs (propertyKey (taskToGroup task)) (getOrZero gs (propertyKey (taskToGroup task)) + x))"
proof -
  have "find (\<lambda>heading. key heading = taskToGroup task) hs = None
          \<longleftrightarrow> taskToGroup task \<notin> key ` set hs"
    by (force simp: find_None_iff)
  then show ?thesis
    by (simp add: groupTask_def Let_def categoryHeading_def)
qed

lemma groupTask_headings:
  "fst (snd (foldl groupTask (t, hs, gs) d)) =
     hs @ map categoryHeading
            (filter (\<lambda>g. g \<notin> key ` set hs)
               (firstOccurrences (map (\<lambda>(task, x). taskToGroup task) d)))"
proof (induction d arbitrary: t hs gs)
  case Nil
  show ?case by simp
next
  case (Cons e d)
  obtain task x where e: "e = (task, x)" by (cases e)
  let ?g = "taskToGroup task"
  let ?rest = "firstOccurrences (map (\<lambda>(task, x). taskToGroup task) d)"
  show ?case
  proof (cases "?g \<in> key ` set hs")
    case True
    have "filter (\<lambda>g. g \<notin> key ` set hs) (filter (\<lambda>y. y \<noteq> ?g) ?rest)
            = filter (\<lambda>g. g \<notin> key ` set hs) ?rest"
      using True by (auto simp: filter_filter intro: filter_cong)
    with True show ?thesis
      by (simp add: e groupTask_step Cons.IH)
  next
    case False
    have "filter (\<lambda>g. g \<notin> key ` set (hs @ [categoryHeading ?g])) ?rest
            = filter (\<lambda>g. g \<notin> key ` set hs) (filter (\<lambda>y. y \<noteq> ?g) ?rest)"
      by (auto simp: filter_filter key_categoryHeading intro: filter_cong)
    with False show ?thesis
      by (simp add: e groupTask_step Cons.IH)
  qed
qed

lemma keys_headings_after:
  "key ` set (hs @ map categoryHeading (filter (\<lambda>g. g \<notin> key ` set hs) gs)) = key ` set hs \<union> set gs"
proof -
  have "key ` set (hs @ map categoryHeading (filter (\<lambda>g. g \<notin> key ` set hs) gs))
          = key ` set hs \<union> {g \<in> set gs. g \<notin> key ` set hs}"
    by (auto simp: image_Un image_image key_categoryHeading)
  then show ?thesis by blast
qed

lemma groupUrls_headings:
  "snd (fst (groupUrls (t, hs) m)) =
     hs @ map categoryHeading
            (filter (\<lambda>g. g \<notin> key ` set hs) (firstOccurrences (discovered m)))"
proof (induction m arbitrary: t hs)
  case Nil
  show ?case by (simp add: discovered_def)
next
  case (Cons e m)
  obtain url durations where e: "e = (url, durations)" by (cases e)
  let ?ds = "map (\<lambda>(task, x). taskToGroup task) durations"
  obtain t' hs' gs' where f: "foldl groupTask (t, hs, []) durations = (t', hs', gs')"
    by (cases "foldl groupTask (t, hs, []) durations") auto
  have hs': "hs' = hs @ map categoryHeading (filter (\<lambda>g. g \<notin> key ` set hs) (firstOccurrences ?ds))"
    using groupTask_headings [of t hs "[]" durations] f by simp
  have keys: "key ` set hs' = key ` set hs \<union> set ?ds"
    unfolding hs' by (simp only: keys_headings_after set_firstOccurrences)
  have disc: "discovered (e # m) = ?ds @ discovered m"
    by (simp add: discovered_def e)
  have filt: "filter (\<lambda>g. g \<notin> key ` set hs') (firstOccurrences (discovered m))
          = filter (\<lambda>g. g \<notin> key ` set hs) (filter (\<lambda>y. y \<notin> set ?ds) (firstOccurrences (discovered m)))"
    unfolding keys by (auto simp: filter_filter intro: filter_cong)
  have "filter (\<lambda>g. g \<notin> key ` set hs) (firstOccurrences (discovered (e # m)))
          = filter (\<lambda>g. g \<notin> key ` set hs) (firstOccurrences ?ds)
            @ filter (\<lambda>g. g \<notin> key ` set hs') (firstOccurrences (discovered m))"
    by (simp only: disc firstOccurrences_append filter_append filt)
  then have rhs: "hs @ map categoryHeading
                   (filter (\<lambda>g. g \<notin> key ` set hs) (firstOccurrences (discovered (e # m))))
          = hs' @ map categoryHeading
                   (filter (\<lambda>g. g \<notin> key ` set hs') (firstOccurrences (discovered m)))"
    by (simp only: map_append append_assoc hs' [symmetric]) (simp add: hs')
  have lhs: "snd (fst (groupUrls (t, hs) (e # m))) = snd (fst (groupUrls (t', hs') m))"
    by (simp add: e f split_beta)
  show ?case
    by (simp only: lhs rhs Cons.IH)
qed

lemma group_not_url: "group k \<noteq> ''url''"
  by (cases k) simp_all

lemma group_not_undefined: "group k \<noteq> ''undefined''"
  by (cases k) simp_all

lemma taskToGroup_not_url: "taskToGroup task \<noteq> Some ''url''"
  by (auto simp: taskToGroup_def group_not_url)

lemma discovered_not_url: "Some ''url'' \<notin> set (discovered m)"
  using taskToGroup_not_url by (fastforce simp: discovered_def)

lemma headings_auditTimings:
  "tableHeadings (auditTimings f m) = urlHeading # map categoryHeading (firstOccurrences (discovered m))"
proof -
  have "filter (\<lambda>g. g \<notin> key ` set [urlHeading]) (firstOccurrences (discovered m))
          = firstOccurrences (discovered m)"
    using discovered_not_url [of m]
    by (auto simp: urlHeading_def set_firstOccurrences filter_id_conv)
  with groupUrls_headings [of 0 "[urlHeading]" m] show ?thesis
    by (simp add: auditTimings_def split_beta)
qed

text \<open>
  C4. The headings start with the fixed \<open>url\<close> heading; after it come the categories of the
  tasks in the order of their first occurrence, URL by URL and within a URL task by task
  (\<open>firstOccurrences\<close> of \<open>discovered\<close>, which by \<open>firstOccurrences_remdups\<close> keeps of each
  category its first occurrence); and no two headings have the same key. The task titles
  are taken not to be names inherited from \<open>Object.prototype\<close>, for which
  \<open>taskToGroup[task]\<close> is not the lookup in the table.
\<close>

theorem headings_first_discovery:
  assumes "ownTitles bootupTimings"
  shows "tableHeadings (auditTimings formatMilliseconds bootupTimings) =
           urlHeading # map categoryHeading (firstOccurrences (discovered bootupTimings))
         \<and> distinct (map key (tableHeadings (auditTimings formatMilliseconds bootupTimings)))"
proof -
  have "distinct (map key (urlHeading # map categoryHeading (firstOccurrences (discovered bootupTimings))))"
    using discovered_not_url [of bootupTimings]
    by (simp add: o_def key_categoryHeading distinct_firstOccurrences set_firstOccurrences urlHeading_def)
  then show ?thesis by (simp add: headings_auditTimings)
qed

theorem headings_first_discovery_witness:
  "ownTitles [(''https://a.test/a.js'', [(''Evaluate Script'', 1), (''Paint'', 2), (''Function Call'', 3)]),
              (''https://b.test/b.js'', [(''Layout'', 1), (''Paint'', 1), (''Mystery Task'', 1)])]
   \<and> tableHeadings (auditTimings (\<lambda>ms granularity. ms)
        [(''https://a.test/a.js'', [(''Evaluate Script'', 1), (''Paint'', 2), (''Function Call'', 3)]),
         (''https://b.test/b.js'', [(''Layout'', 1), (''Paint'', 1), (''Mystery Task'', 1)])])
     = [urlHeading, categoryHeading (Some ''Script Evaluation''), categoryHeading (Some ''Paint''),
        categoryHeading (Some ''Style & Layout''), categoryHeading None]"
proof -
  let ?m = "[(''https://a.test/a.js'', [(''Evaluate Script'', 1::rat), (''Paint'', 2), (''Function Call'', 3)]),
             (''https://b.test/b.js'', [(''Layout'', 1), (''Paint'', 1), (''Mystery Task'', 1)])]"
  have own: "ownTitles ?m"
    by code_simp
  have disc: "firstOccurrences (discovered ?m) =
                [Some ''Script Evaluation'', Some ''Paint'', Some ''Style & Layout'', None]"
    by code_simp
  from headings_first_discovery [OF own, of "\<lambda>ms granularity. ms"] own disc
  show ?thesis by simp
qed

subsection \<open>The rows of the table\<close>

lemma groupTask_groups:
  "snd (snd (foldl groupTask (t, hs, gs) d)) =
     foldl (\<lambda>groups (task, d).
              put groups (propertyKey (taskToGroup task))
                (getOrZero groups (propertyKey (taskToGroup task)) + d))
       gs d"
proof (induction d arbitrary: t hs gs)
  case Nil
  show ?case by simp
next
  case (Cons e d)
  obtain task x where e: "e = (task, x)" by (cases e)
  show ?case by (simp add: e groupTask_step Cons.IH)
qed

lemma groupUrls_groups:
  "snd (groupUrls st m) = map (\<lambda>(url, durations). (url, groupsOf durations)) m"
proof (induction st m rule: groupUrls.induct)
  case (1 state)
  show ?case by simp
next
  case (2 state url durations rest)
  obtain t' hs' gs' where f: "foldl groupTask (fst state, snd state, []) durations = (t', hs', gs')"
    by (cases "foldl groupTask (fst state, snd state, []) durations") auto
  have gs': "gs' = groupsOf durations"
    using groupTask_groups [of "fst state" "snd state" "[]" durations] f
    by (simp add: groupsOf_def)
  from 2 [OF f [symmetric] refl] show ?case
    by (simp add: f gs' split_beta)
qed

lemma getOrZero_put: "getOrZero (put gs k v) k' = (if k' = k then v else getOrZero gs k')"
  by (simp add: getOrZero_def map_of_put)

lemma getOrZero_foldl:
  "getOrZero (foldl (\<lambda>groups (task, d).
              put groups (propertyKey (taskToGroup task))
                (getOrZero groups (propertyKey (taskToGroup task)) + d)) gs d) k
   = getOrZero gs k + (\<Sum>(task, x)\<leftarrow>d. if propertyKey (taskToGroup task) = k then x else 0)"
proof (induction d arbitrary: gs)
  case Nil
  show ?case by simp
next
  case (Cons e d)
  obtain task x where e: "e = (task, x)" by (cases e)
  show ?case by (simp add: e Cons.IH getOrZero_put)
qed

lemma getOrZero_groupsOf:
  "getOrZero (groupsOf durations) k
     = (\<Sum>(task, x)\<leftarrow>durations. if propertyKey (taskToGroup task) = k then x else 0)"
proof -
  have "getOrZero ([] :: (string \<times> rat) list) k = 0" by (simp add: getOrZero_def)
  then show ?thesis unfolding groupsOf_def by (simp only: getOrZero_foldl)
qed

lemma put_absent: "k \<notin> fst ` set ps \<Longrightarrow> put ps k v = ps @ [(k, v)]"
  by (induction ps) auto

lemma foldl_put_distinct:
  assumes "distinct (map kf xs)" "\<forall>x \<in> set xs. kf x \<notin> fst ` set acc"
  shows "foldl (\<lambda>res x. put res (kf x) (vf x)) acc xs = acc @ map (\<lambda>x. (kf x, vf x)) xs"
  using assms
proof (induction xs arbitrary: acc)
  case Nil
  show ?case by simp
next
  case (Cons x xs)
  have p: "put acc (kf x) (vf x) = acc @ [(kf x, vf x)]"
    using Cons.prems by (simp add: put_absent)
  have "\<forall>y \<in> set xs. kf y \<notin> fst ` set (acc @ [(kf x, vf x)])"
  proof
    fix y assume y: "y \<in> set xs"
    with Cons.prems(1) have "kf y \<noteq> kf x" by (metis distinct.simps(2) image_eqI list.simps(9) set_map)
    moreover from y Cons.prems(2) have "kf y \<notin> fst ` set acc" by simp
    ultimately show "kf y \<notin> fst ` set (acc @ [(kf x, vf x)])" by (simp add: image_Un)
  qed
  with Cons.IH [of "acc @ [(kf x, vf x)]"] Cons.prems show ?case
    by (simp add: p)
qed

lemma taskToGroup_cases: "taskToGroup task = None \<or> (\<exists>k. taskToGroup task = Some (group k))"
  by (cases "map_of taskToGroupTable task") (auto simp: taskToGroup_def)

lemma propertyKey_inj:
  assumes "propertyKey a = propertyKey b"
    and "a = Some ''url'' \<or> a \<in> set (discovered m)"
    and "b = Some ''url'' \<or> b \<in> set (discovered m)"
  shows "a = b"
proof -
  have d: "g = None \<or> (\<exists>k. g = Some (group k))" if "g \<in> set (discovered m)" for g
  proof -
    from that obtain task where "g = taskToGroup task" by (auto simp: discovered_def)
    then show ?thesis using taskToGroup_cases [of task] by simp
  qed
  have a: "a = None \<or> a = Some ''url'' \<or> (\<exists>k. a = Some (group k))" using assms(2) d by blast
  have b: "b = None \<or> b = Some ''url'' \<or> (\<exists>k. b = Some (group k))" using assms(3) d by blast
  have n: "''undefined'' \<noteq> group k" "''url'' \<noteq> group k" for k
    using group_not_undefined [of k] group_not_url [of k] by simp_all
  from a b assms(1) show ?thesis
    by (elim disjE exE) (simp_all add: propertyKey_def group_not_undefined group_not_url n)
qed

lemma distinct_propertyKeys:
  "distinct (map propertyKey (Some ''url'' # firstOccurrences (discovered m)))"
proof -
  have "distinct (Some ''url'' # firstOccurrences (discovered m))"
    using discovered_not_url [of m] by (simp add: distinct_firstOccurrences set_firstOccurrences)
  moreover have "inj_on propertyKey (set (Some ''url'' # firstOccurrences (discovered m)))"
  proof (rule inj_onI)
    fix a b
    assume "a \<in> set (Some ''url'' # firstOccurrences (discovered m))"
      and "b \<in> set (Some ''url'' # firstOccurrences (discovered m))"
      and "propertyKey a = propertyKey b"
    then show "a = b"
      using propertyKey_inj [of a b m] by (simp add: set_firstOccurrences)
  qed
  ultimately show ?thesis by (simp only: distinct_map)
qed

lemma makeRow_cells:
  assumes "distinct (map propertyKey (Some ''url'' # D))"
  shows "makeRow f (urlHeading # map categoryHeading D) (url, gs) =
           (''url'', Url url)
           # map (\<lambda>g. (propertyKey g, Formatted (f (getOrZero gs (propertyKey g)) (Some 1)))) D"
proof -
  let ?kf = "\<lambda>heading. propertyKey (key heading)"
  let ?vf = "\<lambda>heading. Formatted (f (getOrZero gs (propertyKey (key heading))) (Some 1))"
  have "map ?kf (urlHeading # map categoryHeading D) = map propertyKey (Some ''url'' # D)"
    by (simp add: urlHeading_def key_categoryHeading)
  with assms have "distinct (map ?kf (urlHeading # map categoryHeading D))"
    by (simp only:)
  from foldl_put_distinct [of ?kf "urlHeading # map categoryHeading D" "[]" ?vf, OF this]
  have "foldl (\<lambda>res heading. put res (?kf heading) (?vf heading)) [] (urlHeading # map categoryHeading D)
          = map (\<lambda>heading. (?kf heading, ?vf heading)) (urlHeading # map categoryHeading D)"
    by simp
  then show ?thesis
    by (simp add: makeRow_def urlHeading_def key_categoryHeading propertyKey_def o_def)
qed

lemma tableItems_explicit:
  "tableItems (auditTimings f m) =
     map (\<lambda>(url, durations).
            (''url'', Url url)
            # map (\<lambda>g. (propertyKey g,
                         Formatted (f (getOrZero (groupsOf durations) (propertyKey g)) (Some 1))))
                (firstOccurrences (discovered m)))
       m"
proof -
  obtain st gpu where g: "groupUrls (0, [urlHeading]) m = (st, gpu)"
    by (cases "groupUrls (0, [urlHeading]) m")
  have hs: "snd st = urlHeading # map categoryHeading (firstOccurrences (discovered m))"
    using headings_auditTimings [of f m] g by (simp add: auditTimings_def split_beta)
  have gpu: "gpu = map (\<lambda>(url, durations). (url, groupsOf durations)) m"
    using groupUrls_groups [of "(0, [urlHeading])" m] g by simp
  have "tableItems (auditTimings f m) = map (makeRow f (snd st)) gpu"
    using g by (simp add: auditTimings_def split_beta)
  then show ?thesis
    by (simp add: hs gpu makeRow_cells [OF distinct_propertyKeys] split_beta o_def)
qed

lemma map_of_map_inj:
  assumes "inj_on kf (set xs)" "x \<in> set xs"
  shows "map_of (map (\<lambda>x. (kf x, vf x)) xs) (kf x) = Some (vf x)"
  using assms by (induction xs) (auto simp: inj_on_def)

lemma discovered_member:
  assumes "(url, durations) \<in> set m" "(task, d) \<in> set durations"
  shows "taskToGroup task \<in> set (discovered m)"
  using assms by (force simp: discovered_def)

lemma row_cell:
  assumes "i < length m" and "m ! i = (url, durations)" and "g \<in> set (discovered m)"
  shows "map_of (tableItems (auditTimings f m) ! i) (propertyKey g)
           = Some (Formatted (f (categoryTime g durations) (Some 1)))"
proof -
  let ?D = "firstOccurrences (discovered m)"
  let ?c = "\<lambda>g. Formatted (f (getOrZero (groupsOf durations) (propertyKey g)) (Some 1))"
  have row: "tableItems (auditTimings f m) ! i
               = (''url'', Url url) # map (\<lambda>g. (propertyKey g, ?c g)) ?D"
    using assms(1,2) by (simp add: tableItems_explicit)
  have inj: "inj_on propertyKey (set ?D)"
    using distinct_propertyKeys [of m] by (simp add: distinct_map)
  have g: "g \<in> set ?D" using assms(3) by (simp add: set_firstOccurrences)
  have "propertyKey g \<noteq> propertyKey (Some ''url'')"
    using propertyKey_inj [of g "Some ''url''" m] assms(3) discovered_not_url [of m] by auto
  then have not_url: "propertyKey g \<noteq> ''url''" by (simp add: propertyKey_def)
  from assms(1,2) have mem: "(url, durations) \<in> set m" by (metis nth_mem)
  have same: "(propertyKey (taskToGroup task) = propertyKey g) = (taskToGroup task = g)"
    if "(task, x) \<in> set durations" for task x
    using propertyKey_inj [of "taskToGroup task" g m] discovered_member [OF mem that] assms(3)
    by auto
  have "getOrZero (groupsOf durations) (propertyKey g)
          = (\<Sum>(task, x)\<leftarrow>durations. if propertyKey (taskToGroup task) = propertyKey g then x else 0)"
    by (rule getOrZero_groupsOf)
  also have "\<dots> = categoryTime g durations"
    unfolding categoryTime_def
    by (rule arg_cong [where f = sum_list], rule map_cong) (auto simp: same)
  finally have time: "getOrZero (groupsOf durations) (propertyKey g) = categoryTime g durations" .
  have "map_of (map (\<lambda>g. (propertyKey g, ?c g)) ?D) (propertyKey g) = Some (?c g)"
    by (rule map_of_map_inj [OF inj g])
  with not_url show ?thesis
    by (simp add: row time)
qed

text \<open>
  C5, as the code has it. For a task title that is not a key of the taxonomy (and not a name
  inherited from \<open>Object.prototype\<close>), \<open>taskToGroup[task]\<close> is \<open>undefined\<close>, and the code uses
  \<open>undefined\<close> as it uses a category: the duration is counted in the grand total, a heading
  whose key and text are \<open>undefined\<close> is appended, and the URL's row carries, under the
  property \<open>undefined\<close>, the formatted sum of that URL's durations whose titles are outside
  the taxonomy. The cell under a category's label holds the durations of that category's
  tasks only.
\<close>

theorem unknown_title_undefined_column:
  assumes "i < length bootupTimings"
    and "bootupTimings ! i = (url, durations)"
    and "(task, d) \<in> set durations"
    and "taskToGroup task = None"
    and "ownTitles bootupTimings"
  shows "rawValue (auditTimings formatMilliseconds bootupTimings) =
           (\<Sum>(url, durations)\<leftarrow>bootupTimings. \<Sum>(task, d)\<leftarrow>durations. d)
         \<and> categoryHeading None \<in> set (tableHeadings (auditTimings formatMilliseconds bootupTimings))
         \<and> map_of (tableItems (auditTimings formatMilliseconds bootupTimings) ! i) ''undefined''
             = Some (Formatted (formatMilliseconds (categoryTime None durations) (Some 1)))
         \<and> (\<forall>label. Some label \<in> set (discovered bootupTimings) \<longrightarrow>
               map_of (tableItems (auditTimings formatMilliseconds bootupTimings) ! i) label
                 = Some (Formatted (formatMilliseconds (categoryTime (Some label) durations) (Some 1))))"
proof -
  let ?r = "auditTimings formatMilliseconds bootupTimings"
  have total: "rawValue ?r = (\<Sum>(url, durations)\<leftarrow>bootupTimings. \<Sum>(task, d)\<leftarrow>durations. d)"
    using groupUrls_total [of 0 "[urlHeading]" bootupTimings]
    by (simp add: auditTimings_def split_beta)
  from assms(1,2) have "(url, durations) \<in> set bootupTimings" by (metis nth_mem)
  from discovered_member [OF this assms(3)] assms(4)
  have none: "None \<in> set (discovered bootupTimings)" by simp
  then have heading: "categoryHeading None \<in> set (tableHeadings ?r)"
    by (simp add: headings_auditTimings set_firstOccurrences)
  have undefined_cell: "map_of (tableItems ?r ! i) ''undefined''
          = Some (Formatted (formatMilliseconds (categoryTime None durations) (Some 1)))"
    using row_cell [OF assms(1,2) none, of formatMilliseconds] by (simp add: propertyKey_def)
  have category_cells: "map_of (tableItems ?r ! i) label
          = Some (Formatted (formatMilliseconds (categoryTime (Some label) durations) (Some 1)))"
    if "Some label \<in> set (discovered bootupTimings)" for label
    using row_cell [OF assms(1,2) that, of formatMilliseconds] by (simp add: propertyKey_def)
  from total heading undefined_cell category_cells show ?thesis by blast
qed

theorem unknown_title_undefined_column_witness:
  "rawValue (auditTimings (\<lambda>ms granularity. ms)
       [(''https://a.test/app.js'',
           [(''Evaluate Script'', 3), (''Mystery Task'', 5), (''Another Mystery'', 2)])]) = 10
   \<and> categoryHeading None \<in> set (tableHeadings (auditTimings (\<lambda>ms granularity. ms)
       [(''https://a.test/app.js'',
           [(''Evaluate Script'', 3), (''Mystery Task'', 5), (''Another Mystery'', 2)])]))
   \<and> map_of (tableItems (auditTimings (\<lambda>ms granularity. ms)
       [(''https://a.test/app.js'',
           [(''Evaluate Script'', 3), (''Mystery Task'', 5), (''Another Mystery'', 2)])]) ! 0)
         ''undefined'' = Some (Formatted 7)
   \<and> map_of (tableItems (auditTimings (\<lambda>ms granularity. ms)
       [(''https://a.test/app.js'',
           [(''Evaluate Script'', 3), (''Mystery Task'', 5), (''Another Mystery'', 2)])]) ! 0)
         ''Script Evaluation'' = Some (Formatted 3)"
proof -
  let ?d = "[(''Evaluate Script'', 3::rat), (''Mystery Task'', 5), (''Another Mystery'', 2)]"
  let ?m = "[(''https://a.test/app.js'', ?d)]"
  have h: "0 < length ?m" "?m ! 0 = (''https://a.test/app.js'', ?d)"
    "(''Mystery Task'', 5) \<in> set ?d"
    by simp_all
  have t: "taskToGroup ''Mystery Task'' = None" by code_simp
  have own: "ownTitles ?m" by code_simp
  have u: "categoryTime None ?d = 7" "categoryTime (Some ''Script Evaluation'') ?d = 3"
    by code_simp+
  have s: "Some ''Script Evaluation'' \<in> set (discovered ?m)" by code_simp
  from unknown_title_undefined_column [OF h t own, of "\<lambda>ms granularity. ms"] u s
  show ?thesis by simp
qed

text \<open>
  The claim C5 as written (no heading and no row cell carries the time of a title outside
  the taxonomy) fails for the single task \<open>Mystery Task\<close> of 5 milliseconds: the table gets a
  second heading, with key \<open>undefined\<close>, and the row has the 5 milliseconds under it.
\<close>

theorem unknown_title_counterexample:
  "taskToGroup ''Mystery Task'' = None
   \<and> tableHeadings (auditTimings (\<lambda>ms granularity. ms)
        [(''https://a.test/app.js'', [(''Mystery Task'', 5)])])
       = [urlHeading, \<lparr>key = None, itemType = ''text'', text' = None\<rparr>]
   \<and> tableItems (auditTimings (\<lambda>ms granularity. ms)
        [(''https://a.test/app.js'', [(''Mystery Task'', 5)])])
       = [[(''url'', Url ''https://a.test/app.js''), (''undefined'', Formatted 5)]]"
  by code_simp













subsection \<open>The durations of a URL\<close>

lemma toFixed1_zero: "toFixed1 0 = 0"
proof -
  have "\<lfloor>1 / 2 :: rat\<rfloor> = 0" by (simp add: floor_eq_iff)
  then show ?thesis by (simp add: toFixed1_def)
qed

lemma selfTimeMs_falsy: "\<not> truthy v \<Longrightarrow> selfTimeMs v = Inr 0"
  by (simp add: selfTimeMs_def orZero_def toFixed1_zero)

lemma selfTimeMs_number:
  "selfTimeIsNumber v \<Longrightarrow> selfTimeMs v = Inr (toFixed1 (selfTimeNumber v))"
  by (cases "orZero v") (simp_all add: selfTimeMs_def selfTimeNumber_def selfTimeIsNumber_def)

lemma addTask_number:
  assumes "selfTimeIsNumber (selfTime n)"
  shows "addTask es tasks n =
           Inr (put tasks (es (event n))
                  (getOrZero tasks (es (event n)) + toFixed1 (selfTimeNumber (selfTime n))))"
  using selfTimeMs_number [OF assms] by (simp add: addTask_def Let_def)

lemma map_of_getOrZero: "map_of tasks title = Some x \<Longrightarrow> getOrZero tasks title = x"
  by (simp add: getOrZero_def)

lemma addTasks_sums:
  assumes "\<forall>n \<in> set nodes. selfTimeIsNumber (selfTime n)"
  shows "\<exists>tasks'. addTasks es tasks nodes = Inr tasks'
           \<and> (\<forall>title. map_of tasks' title =
                 (if title \<in> (\<lambda>n. es (event n)) ` set nodes
                  then Some (getOrZero tasks title
                             + (\<Sum>n\<leftarrow>filter (\<lambda>n. es (event n) = title) nodes.
                                  toFixed1 (selfTimeNumber (selfTime n))))
                  else map_of tasks title))"
  using assms
proof (induction nodes arbitrary: tasks)
  case Nil
  show ?case by simp
next
  case (Cons n nodes)
  let ?t0 = "es (event n)"
  let ?ms = "toFixed1 (selfTimeNumber (selfTime n))"
  let ?tasks1 = "put tasks ?t0 (getOrZero tasks ?t0 + ?ms)"
  from Cons.prems have step: "addTask es tasks n = Inr ?tasks1"
    by (simp add: addTask_number)
  from Cons.prems have "\<forall>n \<in> set nodes. selfTimeIsNumber (selfTime n)"
    by simp
  from Cons.IH [OF this, of ?tasks1] obtain tasks' where
    run: "addTasks es ?tasks1 nodes = Inr tasks'" and
    look: "\<And>title. map_of tasks' title =
                 (if title \<in> (\<lambda>n. es (event n)) ` set nodes
                  then Some (getOrZero ?tasks1 title
                             + (\<Sum>n\<leftarrow>filter (\<lambda>n. es (event n) = title) nodes.
                                  toFixed1 (selfTimeNumber (selfTime n))))
                  else map_of ?tasks1 title)"
    by blast
  have "addTasks es tasks (n # nodes) = Inr tasks'"
    by (simp add: step run)
  moreover have "map_of tasks' title =
                 (if title \<in> (\<lambda>n. es (event n)) ` set (n # nodes)
                  then Some (getOrZero tasks title
                             + (\<Sum>n\<leftarrow>filter (\<lambda>n. es (event n) = title) (n # nodes).
                                  toFixed1 (selfTimeNumber (selfTime n))))
                  else map_of tasks title)" for title
  proof -
    have "filter (\<lambda>m. es (event m) = t) nodes = []"
      if "t \<notin> (\<lambda>n. es (event n)) ` set nodes" for t
      using that by (auto simp: filter_empty_conv)
    then show ?thesis
      by (simp add: look getOrZero_put map_of_put add.assoc)
  qed
  ultimately show ?case by blast
qed

text \<open>
  C8. For a retained URL node the extractor stores under the URL a duration map that has,
  for every title the classifier gives to one of the node's children, the sum over the
  children with that title of the self-times each rounded to one decimal place: a child's
  self-time is rounded before it is added, not the sum afterwards. It does so whenever
  \<open>selfTime || 0\<close> is a number for every child; the titles are taken not to be names
  inherited from \<open>Object.prototype\<close>, for which \<open>tasks[title] || 0\<close> is not 0 at first.
\<close>

theorem durations_rounded_then_summed:
  assumes "children perUrlNode = Some nodes"
    and "url \<noteq> []" and "url \<noteq> ''about:blank''"
    and "\<forall>n \<in> set nodes. selfTimeIsNumber (selfTime n)"
    and "\<forall>n \<in> set nodes. \<not> inheritedKey (eventStyle (event n))"
  shows "\<exists>tasks. addUrl eventStyle result (url, perUrlNode) = Inr (put result url tasks)
           \<and> (\<forall>title. map_of tasks title =
                 (if title \<in> (\<lambda>n. eventStyle (event n)) ` set nodes
                  then Some (\<Sum>n\<leftarrow>filter (\<lambda>n. eventStyle (event n) = title) nodes.
                               toFixed1 (selfTimeNumber (selfTime n)))
                  else None))"
proof -
  from addTasks_sums [OF assms(4), of eventStyle "[]"] obtain tasks where
    run: "addTasks eventStyle [] nodes = Inr tasks" and
    look: "\<And>title. map_of tasks title =
                 (if title \<in> (\<lambda>n. eventStyle (event n)) ` set nodes
                  then Some (getOrZero [] title
                             + (\<Sum>n\<leftarrow>filter (\<lambda>n. eventStyle (event n) = title) nodes.
                                  toFixed1 (selfTimeNumber (selfTime n))))
                  else map_of [] title)"
    by blast
  have "addUrl eventStyle result (url, perUrlNode) = Inr (put result url tasks)"
    using assms(1-3) run by (simp add: addUrl_def)
  moreover have "map_of tasks title =
                 (if title \<in> (\<lambda>n. eventStyle (event n)) ` set nodes
                  then Some (\<Sum>n\<leftarrow>filter (\<lambda>n. eventStyle (event n) = title) nodes.
                               toFixed1 (selfTimeNumber (selfTime n)))
                  else None)" for title
    by (simp add: look getOrZero_def)
  ultimately show ?thesis by blast
qed

theorem durations_rounded_then_summed_witness:
  "(\<exists>tasks.
      addUrl (\<lambda>event. event) []
        (''https://a.test/a.js'',
         UrlNode (Some [TaskNode (JSNumber (1 / 25)) ''Evaluate Script'',
                        TaskNode JSUndefined ''Paint'',
                        TaskNode (JSNumber (1 / 25)) ''Evaluate Script'',
                        TaskNode (JSNumber (63 / 50)) ''Paint'']))
        = Inr (put [] ''https://a.test/a.js'' tasks)
      \<and> map_of tasks ''Evaluate Script'' = Some 0
      \<and> map_of tasks ''Paint'' = Some (13 / 10)
      \<and> map_of tasks ''Layout'' = None)
   \<and> toFixed1 (1 / 25 + 1 / 25) = 1 / 10"
proof -
  let ?nodes = "[TaskNode (JSNumber (1 / 25)) ''Evaluate Script'',
                 TaskNode JSUndefined ''Paint'',
                 TaskNode (JSNumber (1 / 25)) ''Evaluate Script'',
                 TaskNode (JSNumber (63 / 50)) ''Paint'']"
  have h: "children (UrlNode (Some ?nodes)) = Some ?nodes"
    "''https://a.test/a.js'' \<noteq> []" "''https://a.test/a.js'' \<noteq> ''about:blank''"
    "\<forall>n \<in> set ?nodes. selfTimeIsNumber (selfTime n)"
    "\<forall>n \<in> set ?nodes. \<not> inheritedKey ((\<lambda>event. event) (event n))"
    by (simp_all add: inheritedKey_def objectPrototypeKeys_def selfTimeIsNumber_def orZero_def)
  have r: "toFixed1 (selfTimeNumber (JSNumber (1 / 25))) = 0"
    "toFixed1 (selfTimeNumber JSUndefined) = 0"
    "toFixed1 (selfTimeNumber (JSNumber (63 / 50))) = 13 / 10"
    "toFixed1 (1 / 25 + 1 / 25) = 1 / 10"
    by code_simp+
  from durations_rounded_then_summed [OF h, of "[]"] obtain tasks where
    run: "addUrl (\<lambda>event. event) [] (''https://a.test/a.js'', UrlNode (Some ?nodes))
            = Inr (put [] ''https://a.test/a.js'' tasks)" and
    look: "\<And>title. map_of tasks title =
             (if title \<in> (\<lambda>n. event n) ` set ?nodes
              then Some (\<Sum>n\<leftarrow>filter (\<lambda>n. event n = title) ?nodes.
                           toFixed1 (selfTimeNumber (selfTime n)))
              else None)"
    by blast
  have "map_of tasks ''Evaluate Script'' = Some 0" "map_of tasks ''Paint'' = Some (13 / 10)"
    "map_of tasks ''Layout'' = None"
    by (simp_all add: look r)
  with run r(4) show ?thesis by blast
qed

text \<open>
  C10. A child whose \<open>selfTime\<close> is falsy (missing or \<open>undefined\<close>, \<open>null\<close>, \<open>false\<close>, \<open>NaN\<close>, 0 or
  the empty string) is taken as 0 milliseconds: the step for it does not raise, it stores
  under the child's title the number that was there (0 when there was none), and it
  changes the sum of no title. The values of a duration map are numbers by their type. The
  title is taken not to be a name inherited from \<open>Object.prototype\<close>.
\<close>

theorem falsy_selfTime_is_zero:
  assumes "\<not> truthy (selfTime node)"
    and "\<not> inheritedKey (eventStyle (event node))"
  shows "selfTimeMs (selfTime node) = Inr 0
         \<and> addTask eventStyle tasks node =
             Inr (put tasks (eventStyle (event node)) (getOrZero tasks (eventStyle (event node))))
         \<and> (\<forall>title. getOrZero (put tasks (eventStyle (event node))
                                  (getOrZero tasks (eventStyle (event node)))) title
                      = getOrZero tasks title)"
  using selfTimeMs_falsy [OF assms(1)]
  by (simp add: addTask_def Let_def getOrZero_put)

theorem falsy_selfTime_is_zero_witness:
  "selfTimeMs JSNaN = Inr 0
   \<and> addTask (\<lambda>event. event) [(''Paint'', 13 / 10)] (TaskNode JSNaN ''Paint'')
       = Inr [(''Paint'', 13 / 10)]
   \<and> addTask (\<lambda>event. event) [(''Paint'', 13 / 10)] (TaskNode JSUndefined ''Layout'')
       = Inr [(''Paint'', 13 / 10), (''Layout'', 0)]"
proof -
  have own: "\<not> inheritedKey ''Paint''" "\<not> inheritedKey ''Layout''"
    by (simp_all add: inheritedKey_def objectPrototypeKeys_def)
  have g: "getOrZero [(''Paint'', 13 / 10 :: rat)] ''Paint'' = 13 / 10"
    "getOrZero [(''Paint'', 13 / 10 :: rat)] ''Layout'' = 0"
    by (simp_all add: getOrZero_def)
  from falsy_selfTime_is_zero [of "TaskNode JSNaN ''Paint''" "\<lambda>event. event" "[(''Paint'', 13 / 10)]"]
    falsy_selfTime_is_zero [of "TaskNode JSUndefined ''Layout''" "\<lambda>event. event" "[(''Paint'', 13 / 10)]"]
    own g
  show ?thesis by simp
qed

end
